theory Spec2Isabelle
  imports Complex_Main "HOL-Library.Word"
begin

section \<open>Frames\<close>

text \<open>
  The key-frame pipeline of \<^verbatim>\<open>src/utils/videoProcessorML.ts\<close> (the stability-based
  \<^verbatim>\<open>processVideo\<close> and the metrics it calls). A frame is the browser's
  \<^verbatim>\<open>ImageData\<close>: a width, a height and a \<^verbatim>\<open>Uint8ClampedArray\<close> of RGBA bytes.
  JavaScript numbers are modelled as mathematical reals: every operation of the source
  is kept, in the source's order, and rounding to binary64 is left out.
\<close>

record ImageData =
  width :: nat
  height :: nat
  data :: "8 word list"

text \<open>
  The browser builds an \<^verbatim>\<open>ImageData\<close> with exactly four bytes per pixel. Under this
  invariant every array read of the metrics below is in range; outside it JavaScript
  reads \<^verbatim>\<open>undefined\<close>, which HOL's \<open>!\<close> does not model.
\<close>

definition well_formed :: "ImageData \<Rightarrow> bool" where
  "well_formed f \<longleftrightarrow> length (data f) = 4 * width f * height f"

definition byte_at :: "8 word list \<Rightarrow> nat \<Rightarrow> real" where
  "byte_at d i = real (unat (d ! i))"

section \<open>Histogram difference\<close>

definition bins :: nat where
  "bins = 64"

definition bin_of :: "real \<Rightarrow> nat" where
  \<comment> \<open>\<^verbatim>\<open>Math.min(bins - 1, Math.floor((v / 255) * bins))\<close>\<close>
  "bin_of v = min (bins - 1) (nat \<lfloor>(v / 255) * real bins\<rfloor>)"

definition incr :: "real list \<Rightarrow> nat \<Rightarrow> real list" where
  \<comment> \<open>\<^verbatim>\<open>hist[k]++\<close>\<close>
  "incr hist k = hist[k := hist ! k + 1]"

definition sampleRate_of :: "nat \<Rightarrow> nat" where
  \<comment> \<open>\<^verbatim>\<open>Math.max(1, Math.floor(pixelCount / 10000))\<close> with \<^verbatim>\<open>pixelCount = data1.length / 4\<close>\<close>
  "sampleRate_of len = max 1 (nat \<lfloor>(real len / 4) / 10000\<rfloor>)"

definition hist_body ::
  "8 word list \<Rightarrow> 8 word list \<Rightarrow> nat \<Rightarrow> real list \<times> real list \<Rightarrow> real list \<times> real list" where
  "hist_body data1 data2 i hs =
     (case hs of (hist1, hist2) \<Rightarrow>
       let r1 = bin_of (byte_at data1 i);
           g1 = bin_of (byte_at data1 (i + 1));
           b1 = bin_of (byte_at data1 (i + 2));
           hist1 = incr (incr (incr hist1 r1) (bins + g1)) (bins * 2 + b1);
           r2 = bin_of (byte_at data2 i);
           g2 = bin_of (byte_at data2 (i + 1));
           b2 = bin_of (byte_at data2 (i + 2));
           hist2 = incr (incr (incr hist2 r2) (bins + g2)) (bins * 2 + b2)
       in (hist1, hist2))"

text \<open>The sampling loop \<^verbatim>\<open>for (let i = 0; i < data1.length; i += 4 * sampleRate)\<close>.\<close>

function hist_loop ::
  "8 word list \<Rightarrow> 8 word list \<Rightarrow> nat \<Rightarrow> real list \<times> real list \<Rightarrow> real list \<times> real list" where
  "hist_loop data1 data2 i hs =
     (if i < length data1
      then hist_loop data1 data2 (i + 4 * sampleRate_of (length data1)) (hist_body data1 data2 i hs)
      else hs)"
  by pat_completeness auto
termination
  by (relation "measure (\<lambda>(data1, data2, i, hs). length data1 - i)")
     (auto simp: sampleRate_of_def)

definition compare_body :: "real list \<Rightarrow> real list \<Rightarrow> nat \<Rightarrow> real \<times> real \<Rightarrow> real \<times> real" where
  "compare_body hist1 hist2 i acc =
     (case acc of (intersection, chiSquare) \<Rightarrow>
       let intersection = intersection + min (hist1 ! i) (hist2 ! i);
           sum = hist1 ! i + hist2 ! i
       in if sum > 0
          then (let diff = hist1 ! i - hist2 ! i in (intersection, chiSquare + (diff * diff) / sum))
          else (intersection, chiSquare))"

definition calculateHistogramDifference :: "ImageData \<Rightarrow> ImageData \<Rightarrow> real" where
  "calculateHistogramDifference frame1 frame2 =
     (if width frame1 \<noteq> width frame2 \<or> height frame1 \<noteq> height frame2 then 1
      else
        let data1 = data frame1;
            data2 = data frame2;
            sampleRate = sampleRate_of (length data1);
            counts = hist_loop data1 data2 0 (replicate (bins * 3) 0, replicate (bins * 3) 0);
            total = nat \<lfloor>real (length data1) / real (4 * sampleRate)\<rfloor>;
            hist1 = (if total > 0 then map (\<lambda>c. c / real total) (fst counts) else fst counts);
            hist2 = (if total > 0 then map (\<lambda>c. c / real total) (snd counts) else snd counts);
            metrics = fold (compare_body hist1 hist2) [0 ..< length hist1] (0, 0);
            intersectionDiff = 1 - fst metrics;
            chiSquareDiff = min 1 (snd metrics / real (length hist1))
        in intersectionDiff * 0.4 + chiSquareDiff * 0.6)"

section \<open>Structural difference\<close>

definition blockSize :: nat where
  "blockSize = 32"

definition pixel_body ::
  "ImageData \<Rightarrow> ImageData \<Rightarrow> nat \<Rightarrow> nat \<Rightarrow> nat \<Rightarrow> nat \<Rightarrow> real \<times> nat \<Rightarrow> real \<times> nat" where
  "pixel_body frame1 frame2 bx by py px acc =
     (case acc of (blockDiff, pixelCount) \<Rightarrow>
       let x = bx * blockSize + px;
           y = by * blockSize + py;
           idx = (y * width frame1 + x) * 4;
           r1 = byte_at (data frame1) idx;
           g1 = byte_at (data frame1) (idx + 1);
           b1 = byte_at (data frame1) (idx + 2);
           r2 = byte_at (data frame2) idx;
           g2 = byte_at (data frame2) (idx + 1);
           b2 = byte_at (data frame2) (idx + 2);
           diff = (\<bar>r1 - r2\<bar> + \<bar>g1 - g2\<bar> + \<bar>b1 - b2\<bar>) / (3 * 255)
       in (blockDiff + diff, pixelCount + 1))"

definition block_pixels :: "ImageData \<Rightarrow> ImageData \<Rightarrow> nat \<Rightarrow> nat \<Rightarrow> real \<times> nat" where
  \<comment> \<open>the two inner loops, each with its guard \<^verbatim>\<open>p < blockSize && b * blockSize + p < limit\<close>\<close>
  "block_pixels frame1 frame2 bx by =
     fold (\<lambda>py acc.
            fold (pixel_body frame1 frame2 bx by py)
                 (takeWhile (\<lambda>px. bx * blockSize + px < width frame1) [0 ..< blockSize]) acc)
          (takeWhile (\<lambda>py. by * blockSize + py < height frame1) [0 ..< blockSize])
          (0, 0)"

definition block_body :: "ImageData \<Rightarrow> ImageData \<Rightarrow> nat \<Rightarrow> nat \<Rightarrow> real \<times> nat \<Rightarrow> real \<times> nat" where
  "block_body frame1 frame2 by bx acc =
     (case acc of (totalDiff, blockCount) \<Rightarrow>
       case block_pixels frame1 frame2 bx by of (blockDiff, pixelCount) \<Rightarrow>
         if pixelCount > 0
         then (totalDiff + blockDiff / real pixelCount, blockCount + 1)
         else (totalDiff, blockCount))"

definition calculateStructuralDifference :: "ImageData \<Rightarrow> ImageData \<Rightarrow> real" where
  "calculateStructuralDifference frame1 frame2 =
     (let blocksX = width frame1 div blockSize;
          blocksY = height frame1 div blockSize;
          totals = fold (\<lambda>by acc. fold (block_body frame1 frame2 by) [0 ..< blocksX] acc)
                        [0 ..< blocksY] (0, 0 :: nat)
      in if snd totals > 0 then fst totals / real (snd totals) else 0)"

section \<open>Combined frame difference\<close>

definition SAMPLE_RATE :: nat where
  "SAMPLE_RATE = 16"

text \<open>The pixel fallback loop \<^verbatim>\<open>for (let i = 0; i < data1.length; i += 4 * SAMPLE_RATE)\<close>.\<close>

function pixel_loop :: "8 word list \<Rightarrow> 8 word list \<Rightarrow> nat \<Rightarrow> real \<times> nat \<Rightarrow> real \<times> nat" where
  "pixel_loop data1 data2 i acc =
     (if i < length data1
      then pixel_loop data1 data2 (i + 4 * SAMPLE_RATE)
             (case acc of (diff, totalPixels) \<Rightarrow>
               let rDiff = \<bar>byte_at data1 i - byte_at data2 i\<bar>;
                   gDiff = \<bar>byte_at data1 (i + 1) - byte_at data2 (i + 1)\<bar>;
                   bDiff = \<bar>byte_at data1 (i + 2) - byte_at data2 (i + 2)\<bar>;
                   pixelDiff = (rDiff + gDiff + bDiff) / 3 / 255
               in (diff + pixelDiff, totalPixels + 1))
      else acc)"
  by pat_completeness auto
termination
  by (relation "measure (\<lambda>(data1, data2, i, acc). length data1 - i)")
     (auto simp: SAMPLE_RATE_def)

definition calculateFrameDifference :: "ImageData \<Rightarrow> ImageData \<Rightarrow> bool \<Rightarrow> real" where
  "calculateFrameDifference frame1 frame2 useHistogram =
     (if width frame1 \<noteq> width frame2 \<or> height frame1 \<noteq> height frame2 then 1
      else if useHistogram then
        (let histDiff = calculateHistogramDifference frame1 frame2;
             structDiff = calculateStructuralDifference frame1 frame2
         in histDiff * 0.3 + structDiff * 0.7)
      else
        (case pixel_loop (data frame1) (data frame2) 0 (0, 0) of (diff, totalPixels) \<Rightarrow>
           if totalPixels > 0 then diff / real totalPixels else 0))"

section \<open>Sharpness\<close>

definition getGray :: "ImageData \<Rightarrow> nat \<Rightarrow> nat \<Rightarrow> int \<Rightarrow> int \<Rightarrow> real" where
  "getGray imageData x y dx dy =
     (let idx = (nat (int y + dy) * width imageData + nat (int x + dx)) * 4
      in byte_at (data imageData) idx * 0.299
         + byte_at (data imageData) (idx + 1) * 0.587
         + byte_at (data imageData) (idx + 2) * 0.114)"

definition laplacianValue :: "ImageData \<Rightarrow> nat \<Rightarrow> nat \<Rightarrow> real" where
  "laplacianValue imageData x y =
     (let center = getGray imageData x y 0 0;
          top = getGray imageData x y 0 (- 1);
          bottom = getGray imageData x y 0 1;
          left = getGray imageData x y (- 1) 0;
          right = getGray imageData x y 1 0
      in \<bar>4 * center - top - bottom - left - right\<bar>)"

definition laplacian_of :: "ImageData \<Rightarrow> real list" where
  \<comment> \<open>\<^verbatim>\<open>for (y = 1; y < height - 1; y++) for (x = 1; x < width - 1; x++) laplacian.push(...)\<close>\<close>
  "laplacian_of imageData =
     fold (\<lambda>y acc. fold (\<lambda>x acc. acc @ [laplacianValue imageData x y])
                         [1 ..< width imageData - 1] acc)
          [1 ..< height imageData - 1] []"

definition calculateBlurScore :: "ImageData \<Rightarrow> real" where
  "calculateBlurScore imageData =
     (let laplacian = laplacian_of imageData
      in if length laplacian = 0 then 0
         else
           let mean = foldl (\<lambda>a b. a + b) 0 laplacian / real (length laplacian);
               variance = foldl (\<lambda>sum val. sum + (val - mean) ^ 2) 0 laplacian
                            / real (length laplacian)
           in variance)"

section \<open>Options, candidates, screenshots and the engine state\<close>

record ProcessingOptions =
  changeThreshold :: real
  minScreenshotInterval :: real
  sampleInterval :: real
  motionSmoothing :: real
  stabilityWindow :: real
  stabilityThreshold :: real
  minBlurThreshold :: real

text \<open>The caller passes \<^verbatim>\<open>Partial<ProcessingOptions>\<close>; a missing field takes its default.\<close>

record PartialOptions =
  opt_changeThreshold :: "real option"
  opt_minScreenshotInterval :: "real option"
  opt_sampleInterval :: "real option"
  opt_motionSmoothing :: "real option"
  opt_stabilityWindow :: "real option"
  opt_stabilityThreshold :: "real option"
  opt_minBlurThreshold :: "real option"

definition or_default :: "real option \<Rightarrow> real \<Rightarrow> real" where
  \<comment> \<open>the operator \<^verbatim>\<open>??\<close>\<close>
  "or_default v d = (case v of None \<Rightarrow> d | Some x \<Rightarrow> x)"

definition resolve_options :: "PartialOptions \<Rightarrow> ProcessingOptions" where
  "resolve_options options =
     \<lparr>changeThreshold = or_default (opt_changeThreshold options) 0.12,
      minScreenshotInterval = or_default (opt_minScreenshotInterval options) 1.0,
      sampleInterval = or_default (opt_sampleInterval options) 0.2,
      motionSmoothing = or_default (opt_motionSmoothing options) 3,
      stabilityWindow = or_default (opt_stabilityWindow options) 0.5,
      stabilityThreshold = or_default (opt_stabilityThreshold options) 0.05,
      minBlurThreshold = or_default (opt_minBlurThreshold options) 100\<rparr>"

definition no_options :: PartialOptions where
  \<comment> \<open>the default argument \<^verbatim>\<open>options = {}\<close>\<close>
  "no_options =
     \<lparr>opt_changeThreshold = None, opt_minScreenshotInterval = None, opt_sampleInterval = None,
      opt_motionSmoothing = None, opt_stabilityWindow = None, opt_stabilityThreshold = None,
      opt_minBlurThreshold = None\<rparr>"

text \<open>An entry of \<^verbatim>\<open>stableFrames\<close>.\<close>

record Candidate =
  time :: real
  frame :: ImageData
  stability :: real
  blurScore :: real

text \<open>
  An emitted screenshot. The source's \<^verbatim>\<open>id\<close> (built from \<^verbatim>\<open>Date.now()\<close>) is left out,
  and the encoded \<^verbatim>\<open>dataUrl\<close> is represented by the frame it encodes.
\<close>

record Screenshot =
  timestamp :: real
  shotFrameNumber :: nat
  shotBlurScore :: real
  shotFrame :: ImageData

text \<open>The local variables of \<^verbatim>\<open>processVideo\<close> that the sampling loop reads and writes.\<close>

record EngineState =
  baselineFrame :: "ImageData option"
  frameNumber :: nat
  lastScreenshotTime :: real
  recentDifferences :: "real list"
  changeDetectedAt :: "real option"
  stableFrames :: "Candidate list"
  screenshots :: "Screenshot list"
  currentTime :: real

definition truthy :: "real option \<Rightarrow> bool" where
  \<comment> \<open>JavaScript truthiness of a \<^verbatim>\<open>number | null\<close>: \<^verbatim>\<open>null\<close> and \<^verbatim>\<open>0\<close> are falsy\<close>
  "truthy t = (case t of None \<Rightarrow> False | Some v \<Rightarrow> v \<noteq> 0)"

definition emit :: "Screenshot \<Rightarrow> EngineState \<Rightarrow> EngineState" where
  \<comment> \<open>\<^verbatim>\<open>screenshots.push(screenshot); onScreenshot(screenshot)\<close>\<close>
  "emit shot st = st\<lparr>screenshots := screenshots st @ [shot]\<rparr>"

section \<open>The first item\<close>

definition initial_state ::
  "ProcessingOptions \<Rightarrow> ImageData option \<Rightarrow> ImageData option \<Rightarrow> EngineState" where
  "initial_state opts firstFrame stableFrame =
     (let st = \<lparr>baselineFrame = None, frameNumber = 0, lastScreenshotTime = - 1,
                 recentDifferences = [], changeDetectedAt = None, stableFrames = [],
                 screenshots = [], currentTime = 0.1\<rparr>;
          st = (case firstFrame of
                  None \<Rightarrow> st
                | Some first_frame \<Rightarrow>
                    let st = st\<lparr>baselineFrame := Some first_frame, frameNumber := frameNumber st + 1\<rparr>
                    in (case stableFrame of
                          None \<Rightarrow> st
                        | Some stable_frame \<Rightarrow>
                            let blurScore = calculateBlurScore stable_frame;
                                screenshot = \<lparr>timestamp = 0.1 + stabilityWindow opts,
                                              shotFrameNumber = 0,
                                              shotBlurScore = blurScore,
                                              shotFrame = stable_frame\<rparr>
                            in (emit screenshot st)
                                 \<lparr>lastScreenshotTime := 0.1 + stabilityWindow opts,
                                  baselineFrame := Some stable_frame\<rparr>))
      in st\<lparr>currentTime := 0.1 + stabilityWindow opts + sampleInterval opts\<rparr>)"

section \<open>One iteration of the sampling loop\<close>

definition push_difference :: "ProcessingOptions \<Rightarrow> real \<Rightarrow> real list \<Rightarrow> real list" where
  "push_difference opts difference recent =
     (let recent = recent @ [difference]
      in if real (length recent) > motionSmoothing opts then tl recent else recent)"

definition collect_stable ::
  "ProcessingOptions \<Rightarrow> ImageData \<Rightarrow> real \<Rightarrow> EngineState \<Rightarrow> EngineState" where
  "collect_stable opts currentFrame difference st =
     (let blur = calculateBlurScore currentFrame
      in if blur \<ge> minBlurThreshold opts
         then
           let frames = stableFrames st @
                  [\<lparr>time = currentTime st, frame = currentFrame,
                    stability = difference, blurScore = blur\<rparr>];
               frames = (if length frames > 5
                         then take 5 (sort_key (\<lambda>c. - blurScore c) frames)
                         else frames)
           in st\<lparr>stableFrames := frames\<rparr>
         else st)"

definition score :: "Candidate \<Rightarrow> real" where
  "score c = blurScore c * 0.7 + (1 - stability c) * 0.3"

definition best_candidate :: "Candidate list \<Rightarrow> Candidate" where
  \<comment> \<open>\<^verbatim>\<open>stableFrames.sort((a, b) => scoreB - scoreA); stableFrames[0]\<close>, on a non-empty list\<close>
  "best_candidate frames = hd (sort_key (\<lambda>c. - score c) frames)"

definition resolve_window :: "ProcessingOptions \<Rightarrow> ImageData \<Rightarrow> EngineState \<Rightarrow> EngineState" where
  "resolve_window opts currentFrame st =
     (let st =
        (if stableFrames st \<noteq> []
            \<and> currentTime st - lastScreenshotTime st \<ge> minScreenshotInterval opts
         then
           let bestFrame = best_candidate (stableFrames st);
               screenshot = \<lparr>timestamp = time bestFrame,
                             shotFrameNumber = frameNumber st,
                             shotBlurScore = blurScore bestFrame,
                             shotFrame = frame bestFrame\<rparr>
           in (emit screenshot st)
                \<lparr>lastScreenshotTime := time bestFrame,
                 baselineFrame := Some (frame bestFrame)\<rparr>
         else if stableFrames st = []
            \<and> currentTime st - lastScreenshotTime st \<ge> minScreenshotInterval opts
         then
           let blurScore = calculateBlurScore currentFrame
           in if blurScore \<ge> minBlurThreshold opts
              then
                let screenshot = \<lparr>timestamp = currentTime st,
                                  shotFrameNumber = frameNumber st,
                                  shotBlurScore = blurScore,
                                  shotFrame = currentFrame\<rparr>
                in (emit screenshot st)
                     \<lparr>lastScreenshotTime := currentTime st,
                      baselineFrame := Some currentFrame\<rparr>
              else st
         else st)
      in st\<lparr>changeDetectedAt := None, stableFrames := [], recentDifferences := [],
            currentTime := currentTime st + minScreenshotInterval opts * 0.5\<rparr>)"

definition window_elapsed :: "ProcessingOptions \<Rightarrow> EngineState \<Rightarrow> bool" where
  \<comment> \<open>\<^verbatim>\<open>changeDetectedAt && (currentTime - changeDetectedAt) >= opts.stabilityWindow\<close>\<close>
  "window_elapsed opts st =
     (case changeDetectedAt st of
        None \<Rightarrow> False
      | Some t \<Rightarrow> t \<noteq> 0 \<and> currentTime st - t \<ge> stabilityWindow opts)"

text \<open>
  The body of \<^verbatim>\<open>while (currentTime < duration - 0.1)\<close>, given what \<^verbatim>\<open>captureFrame\<close>
  returned in this iteration. Progress reports, logging and the seeks of the video are
  not part of the state. With \<^verbatim>\<open>motionSmoothing\<close> below 1 the source divides by the
  length of an emptied list; the claims below do not depend on that case.
\<close>

definition loop_body :: "ProcessingOptions \<Rightarrow> ImageData option \<Rightarrow> EngineState \<Rightarrow> EngineState" where
  "loop_body opts captured st =
     (case (captured, baselineFrame st) of
        (Some currentFrame, Some baseline) \<Rightarrow>
          let st = st\<lparr>frameNumber := frameNumber st + 1\<rparr>;
              difference = calculateFrameDifference baseline currentFrame True;
              st = st\<lparr>recentDifferences := push_difference opts difference (recentDifferences st)\<rparr>;
              smoothedDifference =
                foldl (\<lambda>a b. a + b) 0 (recentDifferences st) / real (length (recentDifferences st));
              isStable = difference < stabilityThreshold opts;
              st = (if isStable \<and> \<not> truthy (changeDetectedAt st)
                    then collect_stable opts currentFrame difference st else st);
              isSignificantChange =
                (smoothedDifference > changeThreshold opts
                 \<or> difference > changeThreshold opts * 1.5);
              st = (if isSignificantChange \<and> \<not> truthy (changeDetectedAt st)
                    then st\<lparr>changeDetectedAt := Some (currentTime st), stableFrames := []\<rparr>
                    else st)
          in if window_elapsed opts st
             then resolve_window opts currentFrame st
             else st\<lparr>currentTime := currentTime st + sampleInterval opts\<rparr>
      | _ \<Rightarrow> st\<lparr>currentTime := currentTime st + sampleInterval opts\<rparr>)"

section \<open>The sampling loop and the end of the run\<close>

text \<open>
  The loop consumes one captured frame per iteration. It need not end (a
  \<^verbatim>\<open>sampleInterval\<close> of 0 never advances the clock), so the list of captures is also
  its fuel: \<open>None\<close> means the loop still wanted a frame when the list was used up.
\<close>

fun sample_loop ::
  "ProcessingOptions \<Rightarrow> real \<Rightarrow> ImageData option list \<Rightarrow> EngineState \<Rightarrow> EngineState option" where
  "sample_loop opts duration [] st =
     (if currentTime st < duration - 0.1 then None else Some st)"
| "sample_loop opts duration (captured # rest) st =
     (if currentTime st < duration - 0.1
      then sample_loop opts duration rest (loop_body opts captured st)
      else Some st)"

text \<open>The state after the loop has consumed the captures given (or has ended before).\<close>

fun iterate ::
  "ProcessingOptions \<Rightarrow> real \<Rightarrow> ImageData option list \<Rightarrow> EngineState \<Rightarrow> EngineState" where
  "iterate opts duration [] st = st"
| "iterate opts duration (captured # rest) st =
     (if currentTime st < duration - 0.1
      then iterate opts duration rest (loop_body opts captured st)
      else st)"

definition pending_change :: "ProcessingOptions \<Rightarrow> EngineState \<Rightarrow> EngineState" where
  \<comment> \<open>"Handle any pending change detection"\<close>
  "pending_change opts st =
     (if truthy (changeDetectedAt st) \<and> stableFrames st \<noteq> []
      then
        let bestFrame = best_candidate (stableFrames st)
        in if time bestFrame - lastScreenshotTime st \<ge> minScreenshotInterval opts
           then emit \<lparr>timestamp = time bestFrame,
                      shotFrameNumber = frameNumber st,
                      shotBlurScore = blurScore bestFrame,
                      shotFrame = frame bestFrame\<rparr> st
           else st
      else st)"

definition final_frame ::
  "ProcessingOptions \<Rightarrow> real \<Rightarrow> ImageData option \<Rightarrow> EngineState \<Rightarrow> EngineState" where
  \<comment> \<open>"Capture final frame if needed (only if sharp enough)"\<close>
  "final_frame opts duration captured st =
     (case captured of
        None \<Rightarrow> st
      | Some finalFrame \<Rightarrow>
          let blurScore = calculateBlurScore finalFrame
          in if screenshots st \<noteq> []
             then
               let lastScreenshot = last (screenshots st)
               in if \<bar>duration - timestamp lastScreenshot\<bar> \<ge> minScreenshotInterval opts
                     \<and> blurScore \<ge> minBlurThreshold opts
                  then emit \<lparr>timestamp = duration - 0.1,
                             shotFrameNumber = frameNumber st + 1,
                             shotBlurScore = blurScore,
                             shotFrame = finalFrame\<rparr> st
                  else st
             else if blurScore \<ge> minBlurThreshold opts
             then emit \<lparr>timestamp = duration - 0.1,
                        shotFrameNumber = 0,
                        shotBlurScore = blurScore,
                        shotFrame = finalFrame\<rparr> st
             else st)"

datatype error = NoCanvasContext | NoVideoDimensions | InvalidDuration

text \<open>
  The video as \<^verbatim>\<open>processVideo\<close> sees it: its dimensions, its duration, and what
  \<^verbatim>\<open>captureFrame\<close> returns at each of the captures, in the order they are made.
\<close>

record Video =
  hasContext :: bool
  videoWidth :: nat
  videoHeight :: nat
  duration :: real
  firstCapture :: "ImageData option"
  stableCapture :: "ImageData option"
  loopCaptures :: "ImageData option list"
  finalCapture :: "ImageData option"

definition processVideo :: "Video \<Rightarrow> PartialOptions \<Rightarrow> (error + Screenshot list) option" where
  "processVideo video options =
     (let opts = resolve_options options
      in if \<not> hasContext video then Some (Inl NoCanvasContext)
         else if videoWidth video = 0 \<or> videoHeight video = 0 then Some (Inl NoVideoDimensions)
         else if duration video = 0 then Some (Inl InvalidDuration)
         else
           case sample_loop opts (duration video) (loopCaptures video)
                  (initial_state opts (firstCapture video) (stableCapture video)) of
             None \<Rightarrow> None
           | Some st \<Rightarrow>
               Some (Inr (screenshots
                 (final_frame opts (duration video) (finalCapture video)
                    (pending_change opts st)))))"

section \<open>Predicates used in the statements\<close>

definition rgb_at :: "ImageData \<Rightarrow> nat \<Rightarrow> 8 word \<times> 8 word \<times> 8 word" where
  \<comment> \<open>the colour channels of pixel number \<open>p\<close>, counted row by row\<close>
  "rgb_at f p = (data f ! (p * 4), data f ! (p * 4 + 1), data f ! (p * 4 + 2))"

definition uniform_color :: "ImageData \<Rightarrow> bool" where
  \<comment> \<open>every pixel of the frame has the colour of its first pixel\<close>
  "uniform_color f \<longleftrightarrow> list_all (\<lambda>p. rgb_at f p = rgb_at f 0) [0 ..< width f * height f]"

definition window_inv :: "EngineState \<Rightarrow> bool" where
  \<comment> \<open>while a change is pending, no candidate is held\<close>
  "window_inv st \<longleftrightarrow> (truthy (changeDetectedAt st) \<longrightarrow> stableFrames st = [])"

section \<open>Concrete frames and videos\<close>

definition black1 :: ImageData where
  \<comment> \<open>one opaque black pixel\<close>
  "black1 = \<lparr>width = 1, height = 1, data = [0, 0, 0, 255]\<rparr>"

definition white1 :: ImageData where
  \<comment> \<open>one opaque white pixel\<close>
  "white1 = \<lparr>width = 1, height = 1, data = [255, 255, 255, 255]\<rparr>"

definition blue1 :: ImageData where
  \<comment> \<open>one opaque blue pixel\<close>
  "blue1 = \<lparr>width = 1, height = 1, data = [0, 0, 255, 255]\<rparr>"

definition black2 :: ImageData where
  \<comment> \<open>two opaque black pixels side by side\<close>
  "black2 = \<lparr>width = 2, height = 1, data = [0, 0, 0, 255, 0, 0, 0, 255]\<rparr>"

definition sharp43 :: ImageData where
  \<comment> \<open>4 by 3, black but for one white interior pixel: two interior pixels, a hard edge\<close>
  "sharp43 = \<lparr>width = 4, height = 3, data =
     [0, 0, 0, 255,  0, 0, 0, 255,        0, 0, 0, 255,  0, 0, 0, 255,
      0, 0, 0, 255,  255, 255, 255, 255,  0, 0, 0, 255,  0, 0, 0, 255,
      0, 0, 0, 255,  0, 0, 0, 255,        0, 0, 0, 255,  0, 0, 0, 255]\<rparr>"

definition gray43 :: ImageData where
  \<comment> \<open>4 by 3, every pixel the same mid grey\<close>
  "gray43 = \<lparr>width = 4, height = 3, data =
     [128, 128, 128, 255,  128, 128, 128, 255,  128, 128, 128, 255,  128, 128, 128, 255,
      128, 128, 128, 255,  128, 128, 128, 255,  128, 128, 128, 255,  128, 128, 128, 255,
      128, 128, 128, 255,  128, 128, 128, 255,  128, 128, 128, 255,  128, 128, 128, 255]\<rparr>"

definition still_video :: Video where
  \<comment> \<open>1.65 seconds of the same sharp frame\<close>
  "still_video = \<lparr>hasContext = True, videoWidth = 4, videoHeight = 3, duration = 1.65,
     firstCapture = Some sharp43, stableCapture = Some sharp43,
     loopCaptures = [Some sharp43, Some sharp43, Some sharp43, Some sharp43],
     finalCapture = Some sharp43\<rparr>"

definition blurry_video :: Video where
  \<comment> \<open>1.05 seconds of a single flat pixel, whose sharpness is 0\<close>
  "blurry_video = \<lparr>hasContext = True, videoWidth = 1, videoHeight = 1, duration = 1.05,
     firstCapture = Some black1, stableCapture = Some black1,
     loopCaptures = [Some black1],
     finalCapture = Some black1\<rparr>"

declare hist_loop.simps [simp del] pixel_loop.simps [simp del]

section \<open>The metrics on the concrete frames\<close>

lemma well_formed_examples:
  "well_formed black1" "well_formed white1" "well_formed blue1" "well_formed black2"
  "well_formed sharp43" "well_formed gray43"
  by (simp_all add: well_formed_def black1_def white1_def blue1_def black2_def
      sharp43_def gray43_def)

lemma blur_black1: "calculateBlurScore black1 = 0"
  by code_simp

lemma blur_sharp43: "calculateBlurScore sharp43 = 585225 / 4"
  by code_simp

lemma diff_black1_self: "calculateFrameDifference black1 black1 True = - 6 / 25"
  by code_simp

lemma diff_black1_white1: "calculateFrameDifference black1 white1 True = 201 / 1600"
  by code_simp

lemma diff_black1_blue1: "calculateFrameDifference black1 blue1 True = - 189 / 1600"
  by code_simp

lemma diff_sharp43_self: "calculateFrameDifference sharp43 sharp43 True = - 6 / 25"
  by code_simp

lemma diff_sharp43_gray43: "calculateFrameDifference sharp43 gray43 True = 201 / 1600"
  by code_simp

lemmas engine_defs =
  processVideo_def resolve_options_def no_options_def or_default_def initial_state_def
  loop_body_def push_difference_def collect_stable_def resolve_window_def window_elapsed_def
  pending_change_def final_frame_def emit_def truthy_def Let_def

section \<open>Frames of different dimensions\<close>

text \<open>
  Claim C7. For every pair of frames whose widths or heights differ, the frame-difference
  function returns exactly 1 (whichever comparison method is selected), and so does the
  histogram component on its own: both test the dimensions before they read a pixel, so
  nothing can fail on the way.
\<close>

theorem calculateFrameDifference_dimension_mismatch:
  assumes "width a \<noteq> width b \<or> height a \<noteq> height b"
  shows "calculateFrameDifference a b useHistogram = 1 \<and> calculateHistogramDifference a b = 1"
  using assms by (simp add: calculateFrameDifference_def calculateHistogramDifference_def)

theorem calculateFrameDifference_dimension_mismatch_witness:
  "width black1 \<noteq> width black2
   \<and> calculateFrameDifference black1 black2 True = 1
   \<and> calculateHistogramDifference black1 black2 = 1"
proof -
  have dims: "width black1 \<noteq> width black2"
    by (simp add: black1_def black2_def)
  then have "width black1 \<noteq> width black2 \<or> height black1 \<noteq> height black2" ..
  from calculateFrameDifference_dimension_mismatch [OF this, of True] dims
  show ?thesis by simp
qed

section \<open>Sharpness\<close>

lemma fold_push_map: "fold (\<lambda>x acc. acc @ [g x]) xs acc = acc @ map g xs"
  by (induction xs arbitrary: acc) simp_all

lemma fold_push_rows:
  "fold (\<lambda>y acc. fold (\<lambda>x acc. acc @ [g x y]) xs acc) ys acc
     = acc @ concat (map (\<lambda>y. map (\<lambda>x. g x y) xs) ys)"
  by (induction ys arbitrary: acc) (simp_all add: fold_push_map)

lemma laplacian_of_concat:
  "laplacian_of f =
     concat (map (\<lambda>y. map (\<lambda>x. laplacianValue f x y) [1 ..< width f - 1]) [1 ..< height f - 1])"
  by (simp add: laplacian_of_def fold_push_rows)

lemma laplacian_of_no_interior:
  "width f \<le> 2 \<or> height f \<le> 2 \<Longrightarrow> laplacian_of f = []"
  by (auto simp: laplacian_of_concat)

lemma sum_squares_nonneg:
  "0 \<le> a \<Longrightarrow> 0 \<le> foldl (\<lambda>sum val. sum + (val - m) ^ 2) (a::real) xs"
  by (induction xs arbitrary: a) simp_all

lemma calculateBlurScore_nonneg: "0 \<le> calculateBlurScore f"
  by (simp add: calculateBlurScore_def Let_def sum_squares_nonneg)

lemma foldl_add_zeros:
  "\<forall>v \<in> set xs. v = 0 \<Longrightarrow> foldl (\<lambda>a b. a + b) (a::real) xs = a"
  by (induction xs arbitrary: a) simp_all

lemma foldl_squares_const:
  "\<forall>v \<in> set xs. v = m \<Longrightarrow> foldl (\<lambda>sum val. sum + (val - m) ^ 2) (a::real) xs = a"
  by (induction xs arbitrary: a) simp_all

lemma pixel_in_frame:
  fixes x y w h :: nat
  assumes "x < w" "y < h"
  shows "y * w + x < w * h"
proof -
  have "y * w + x < y * w + w" using assms by simp
  also have "\<dots> = (y + 1) * w" by simp
  also have "\<dots> \<le> h * w" using assms by (intro mult_le_mono1) simp
  finally show ?thesis by (simp add: mult.commute)
qed

text \<open>In a well-formed frame the three bytes that \<^verbatim>\<open>getGray\<close> reads exist.\<close>

lemma getGray_reads_in_range:
  assumes "well_formed f" and "nat (int x + dx) < width f" and "nat (int y + dy) < height f"
  shows "(nat (int y + dy) * width f + nat (int x + dx)) * 4 + 2 < length (data f)"
proof -
  have "nat (int y + dy) * width f + nat (int x + dx) < width f * height f"
    using assms(2,3) by (rule pixel_in_frame)
  with assms(1) show ?thesis by (simp add: well_formed_def)
qed

lemma uniform_getGray:
  assumes u: "uniform_color f"
    and x: "nat (int x + dx) < width f" and y: "nat (int y + dy) < height f"
  shows "getGray f x y dx dy = getGray f 0 0 0 0"
proof -
  let ?p = "nat (int y + dy) * width f + nat (int x + dx)"
  have "?p < width f * height f" using x y by (rule pixel_in_frame)
  with u have "rgb_at f ?p = rgb_at f 0"
    by (simp add: uniform_color_def list_all_iff)
  then show ?thesis
    by (simp add: getGray_def rgb_at_def byte_at_def Let_def)
qed

lemma uniform_laplacianValue:
  assumes u: "uniform_color f"
    and x: "1 \<le> x" "x + 1 < width f" and y: "1 \<le> y" "y + 1 < height f"
  shows "laplacianValue f x y = 0"
proof -
  have "getGray f x y 0 0 = getGray f 0 0 0 0"
    using x y by (intro uniform_getGray [OF u]) simp_all
  moreover have "getGray f x y 0 (- 1) = getGray f 0 0 0 0"
    using x y by (intro uniform_getGray [OF u]) simp_all
  moreover have "getGray f x y 0 1 = getGray f 0 0 0 0"
    using x y by (intro uniform_getGray [OF u]) (simp_all add: nat_add_distrib)
  moreover have "getGray f x y (- 1) 0 = getGray f 0 0 0 0"
    using x y by (intro uniform_getGray [OF u]) simp_all
  moreover have "getGray f x y 1 0 = getGray f 0 0 0 0"
    using x y by (intro uniform_getGray [OF u]) (simp_all add: nat_add_distrib)
  ultimately show ?thesis by (simp add: laplacianValue_def Let_def)
qed

lemma uniform_laplacian_zero:
  assumes "uniform_color f" and "v \<in> set (laplacian_of f)"
  shows "v = 0"
  using assms by (auto simp: laplacian_of_concat uniform_laplacianValue)

lemma calculateBlurScore_uniform:
  assumes "uniform_color f"
  shows "calculateBlurScore f = 0"
proof -
  have z: "\<forall>v \<in> set (laplacian_of f). v = 0"
    using assms uniform_laplacian_zero by blast
  then have mean: "foldl (\<lambda>a b. a + b) 0 (laplacian_of f) / real (length (laplacian_of f)) = 0"
    by (simp add: foldl_add_zeros)
  from z have "foldl (\<lambda>sum val. sum + (val - 0) ^ 2) 0 (laplacian_of f) = 0"
    by (rule foldl_squares_const)
  then show ?thesis
    unfolding calculateBlurScore_def Let_def mean by simp
qed

lemma uniform_color_gray43: "uniform_color gray43"
  by code_simp

text \<open>
  Claim C8. For every frame the sharpness score is non-negative; it is exactly 0 when the
  frame has no interior pixel (width or height at most 2), and exactly 0 when the frame
  has one colour throughout. The scorer is a total function, and in a well-formed frame
  all its reads are in range (\<open>getGray_reads_in_range\<close>), so it cannot fail.
\<close>

theorem calculateBlurScore_properties:
  assumes "well_formed f"
  shows "0 \<le> calculateBlurScore f
    \<and> (width f \<le> 2 \<or> height f \<le> 2 \<longrightarrow> calculateBlurScore f = 0)
    \<and> (uniform_color f \<longrightarrow> calculateBlurScore f = 0)"
  by (simp add: calculateBlurScore_nonneg calculateBlurScore_uniform)
     (auto simp: calculateBlurScore_def laplacian_of_no_interior)

theorem calculateBlurScore_properties_witness:
  "well_formed black1 \<and> width black1 \<le> 2 \<and> calculateBlurScore black1 = 0
   \<and> well_formed gray43 \<and> 2 < width gray43 \<and> 2 < height gray43 \<and> uniform_color gray43
   \<and> calculateBlurScore gray43 = 0
   \<and> well_formed sharp43 \<and> 0 \<le> calculateBlurScore sharp43"
proof -
  have small: "width black1 \<le> 2" by (simp add: black1_def)
  have large: "2 < width gray43" "2 < height gray43" by (simp_all add: gray43_def)
  from calculateBlurScore_properties [OF well_formed_examples(1)]
       calculateBlurScore_properties [OF well_formed_examples(6)]
       calculateBlurScore_properties [OF well_formed_examples(5)]
       small large uniform_color_gray43 well_formed_examples
  show ?thesis by simp
qed

section \<open>Symmetry of the frame difference\<close>

lemma hist_body_swap:
  "hist_body d2 d1 i (prod.swap hs) = prod.swap (hist_body d1 d2 i hs)"
  by (cases hs) (simp add: hist_body_def Let_def)

lemma hist_loop_swap:
  assumes "length d1 = length d2"
  shows "hist_loop d2 d1 i (prod.swap hs) = prod.swap (hist_loop d1 d2 i hs)"
  using assms
proof (induction d1 d2 i hs rule: hist_loop.induct)
  case (1 data1 data2 i hs)
  show ?case
  proof (cases "i < length data1")
    case True
    have "hist_loop data2 data1 i (prod.swap hs)
            = hist_loop data2 data1 (i + 4 * sampleRate_of (length data2))
                (hist_body data2 data1 i (prod.swap hs))"
      using True "1.prems" by (subst hist_loop.simps) simp
    also have "\<dots> = hist_loop data2 data1 (i + 4 * sampleRate_of (length data1))
                (prod.swap (hist_body data1 data2 i hs))"
      using "1.prems" by (simp only: hist_body_swap)
    also have "\<dots> = prod.swap (hist_loop data1 data2 (i + 4 * sampleRate_of (length data1))
                (hist_body data1 data2 i hs))"
      using "1.IH" [OF True "1.prems"] .
    also have "\<dots> = prod.swap (hist_loop data1 data2 i hs)"
      using True by (subst (2) hist_loop.simps) simp
    finally show ?thesis .
  next
    case False
    then show ?thesis using "1.prems"
      by (subst hist_loop.simps, subst (2) hist_loop.simps) simp
  qed
qed

lemma length_incr [simp]: "length (incr h k) = length h"
  by (simp add: incr_def)

lemma length_hist_body:
  "length (fst (hist_body d1 d2 i hs)) = length (fst hs)
   \<and> length (snd (hist_body d1 d2 i hs)) = length (snd hs)"
  by (cases hs) (simp add: hist_body_def Let_def)

lemma length_hist_loop:
  "length (fst (hist_loop d1 d2 i hs)) = length (fst hs)
   \<and> length (snd (hist_loop d1 d2 i hs)) = length (snd hs)"
proof (induction d1 d2 i hs rule: hist_loop.induct)
  case (1 data1 data2 i hs)
  show ?case
  proof (cases "i < length data1")
    case True
    with "1.IH" show ?thesis
      by (subst hist_loop.simps, subst (2) hist_loop.simps) (simp add: length_hist_body)
  next
    case False
    then show ?thesis
      by (subst hist_loop.simps, subst (2) hist_loop.simps) simp
  qed
qed

lemma compare_body_commute: "compare_body h2 h1 i acc = compare_body h1 h2 i acc"
proof -
  have sq: "(a - b) * (a - b) = (b - a) * (b - a)" for a b :: real
    by (simp add: algebra_simps)
  show ?thesis
    by (cases acc) (simp add: compare_body_def Let_def min.commute add.commute sq)
qed

lemma calculateHistogramDifference_commute:
  assumes "length (data a) = length (data b)"
  shows "calculateHistogramDifference b a = calculateHistogramDifference a b"
proof (cases "width a \<noteq> width b \<or> height a \<noteq> height b")
  case True
  then show ?thesis by (auto simp: calculateHistogramDifference_def)
next
  case False
  let ?init = "(replicate (bins * 3) (0::real), replicate (bins * 3) (0::real))"
  have sw: "hist_loop (data b) (data a) 0 ?init = prod.swap (hist_loop (data a) (data b) 0 ?init)"
    using hist_loop_swap [OF assms, of 0 ?init] by simp
  have len: "length (snd (hist_loop (data a) (data b) 0 ?init))
               = length (fst (hist_loop (data a) (data b) 0 ?init))"
    using length_hist_loop [of "data a" "data b" 0 ?init] by simp
  have cb: "compare_body h2 h1 = compare_body h1 h2" for h1 h2
    by (intro ext) (rule compare_body_commute)
  from False show ?thesis
    unfolding calculateHistogramDifference_def Let_def sw
    by (simp add: assms len cb)
qed

lemma pixel_body_commute:
  assumes "width a = width b"
  shows "pixel_body b a bx by py px acc = pixel_body a b bx by py px acc"
  using assms by (cases acc) (simp add: pixel_body_def Let_def abs_minus_commute)

lemma calculateStructuralDifference_commute:
  assumes "width a = width b" "height a = height b"
  shows "calculateStructuralDifference b a = calculateStructuralDifference a b"
proof -
  have pb: "pixel_body b a = pixel_body a b"
    by (intro ext) (rule pixel_body_commute [OF assms(1)])
  have bp: "block_pixels b a = block_pixels a b"
    by (intro ext) (simp add: block_pixels_def pb assms)
  have bb: "block_body b a = block_body a b"
    by (intro ext) (simp add: block_body_def bp)
  show ?thesis
    by (simp add: calculateStructuralDifference_def bb assms)
qed

lemma pixel_loop_commute:
  assumes "length d1 = length d2"
  shows "pixel_loop d2 d1 i acc = pixel_loop d1 d2 i acc"
  using assms
proof (induction d1 d2 i acc rule: pixel_loop.induct)
  case (1 data1 data2 i acc)
  show ?case
  proof (cases "i < length data1")
    case True
    show ?thesis
      using True "1.prems" "1.IH" [OF True "1.prems"]
      by (subst pixel_loop.simps, subst (2) pixel_loop.simps)
         (simp add: abs_minus_commute Let_def split: prod.splits)
  next
    case False
    then show ?thesis using "1.prems"
      by (subst pixel_loop.simps, subst (2) pixel_loop.simps) simp
  qed
qed

text \<open>
  Claim C6. For every pair of frames \<open>a\<close> and \<open>b\<close> the frame difference is symmetric:
  the difference of \<open>a\<close> and \<open>b\<close> equals the difference of \<open>b\<close> and \<open>a\<close>, for the
  hybrid method the engine uses and for the pixel fallback alike.
\<close>

theorem calculateFrameDifference_symmetric:
  assumes "well_formed a" and "well_formed b"
  shows "calculateFrameDifference a b useHistogram = calculateFrameDifference b a useHistogram"
proof (cases "width a \<noteq> width b \<or> height a \<noteq> height b")
  case True
  then show ?thesis by (auto simp: calculateFrameDifference_def)
next
  case False
  then have dims: "width a = width b" "height a = height b" by simp_all
  with assms have len: "length (data a) = length (data b)"
    by (simp add: well_formed_def)
  show ?thesis
    using dims
    by (simp add: calculateFrameDifference_def calculateHistogramDifference_commute [OF len]
        calculateStructuralDifference_commute [OF dims] pixel_loop_commute [OF len])
qed

theorem calculateFrameDifference_symmetric_witness:
  "well_formed sharp43 \<and> well_formed gray43
   \<and> calculateFrameDifference sharp43 gray43 True = 201 / 1600
   \<and> calculateFrameDifference gray43 sharp43 True = 201 / 1600"
  using calculateFrameDifference_symmetric [OF well_formed_examples(5) well_formed_examples(6), of True]
    well_formed_examples diff_sharp43_gray43
  by simp

section \<open>The candidate set while a change is pending\<close>

lemma changeDetectedAt_emit [simp]: "changeDetectedAt (emit shot st) = changeDetectedAt st"
  and stableFrames_emit [simp]: "stableFrames (emit shot st) = stableFrames st"
  and screenshots_emit [simp]: "screenshots (emit shot st) = screenshots st @ [shot]"
  by (simp_all add: emit_def)

lemma window_inv_initial: "window_inv (initial_state opts firstFrame stableFrame)"
  by (simp add: window_inv_def initial_state_def Let_def truthy_def split: option.splits)

lemma changeDetectedAt_collect_stable [simp]:
  "changeDetectedAt (collect_stable opts f d st) = changeDetectedAt st"
  by (simp add: collect_stable_def Let_def)

lemma changeDetectedAt_resolve_window [simp]:
  "changeDetectedAt (resolve_window opts f st) = None"
  by (simp add: resolve_window_def Let_def)

lemma window_inv_loop_body:
  assumes "window_inv st"
  shows "window_inv (loop_body opts captured st)"
proof (cases captured)
  case None
  with assms show ?thesis by (simp add: loop_body_def window_inv_def)
next
  case (Some currentFrame)
  show ?thesis
  proof (cases "baselineFrame st")
    case None
    with Some assms show ?thesis by (simp add: loop_body_def window_inv_def)
  next
    case (Some baseline)
    with \<open>captured = Some currentFrame\<close> assms show ?thesis
      by (simp add: loop_body_def window_inv_def Let_def truthy_def)
  qed
qed

lemma window_inv_iterate:
  "window_inv st \<Longrightarrow> window_inv (iterate opts d captures st)"
  by (induction captures arbitrary: st) (simp_all add: window_inv_loop_body)

lemma sample_loop_iterate:
  "sample_loop opts d captures st = Some st' \<Longrightarrow> st' = iterate opts d captures st"
  by (induction captures arbitrary: st) (auto split: if_splits)

lemma pending_change_idle:
  "window_inv st \<Longrightarrow> pending_change opts st = st"
  by (auto simp: pending_change_def window_inv_def)

lemma open_window_black_white:
  "(let opts = resolve_options no_options;
        st = iterate opts 10 [Some white1] (initial_state opts (Some black1) (Some black1))
    in changeDetectedAt st = Some (4 / 5) \<and> stableFrames st = [])"
  by (simp add: engine_defs diff_black1_white1)

text \<open>
  Claim C10. Throughout any run of \<^verbatim>\<open>processVideo\<close>, whatever the options, the duration
  and the frames captured, the candidate set is empty while \<^verbatim>\<open>changeDetectedAt\<close> is set:
  it is emptied when the change is detected and nothing is added until the window is
  resolved. So the block that handles a pending change at the end of the stream, which
  needs \<^verbatim>\<open>changeDetectedAt\<close> set and a candidate, leaves the state as it is and emits no
  screenshot, after any number of iterations and in particular when the loop has ended.
\<close>

theorem candidates_empty_while_change_pending:
  "(let st = iterate opts d captures (initial_state opts firstFrame stableFrame)
    in (truthy (changeDetectedAt st) \<longrightarrow> stableFrames st = []) \<and> pending_change opts st = st)
   \<and> (\<forall>st. sample_loop opts d captures (initial_state opts firstFrame stableFrame) = Some st
          \<longrightarrow> pending_change opts st = st)"
proof -
  have inv: "window_inv (iterate opts d captures (initial_state opts firstFrame stableFrame))"
    by (intro window_inv_iterate window_inv_initial)
  then show ?thesis
    using sample_loop_iterate [of opts d captures "initial_state opts firstFrame stableFrame"]
    by (auto simp: Let_def pending_change_idle window_inv_def)
qed

theorem candidates_empty_while_change_pending_witness:
  "(let opts = resolve_options no_options;
        st = iterate opts 10 [Some white1] (initial_state opts (Some black1) (Some black1))
    in truthy (changeDetectedAt st) \<and> stableFrames st = [] \<and> pending_change opts st = st)"
  using candidates_empty_while_change_pending
          [of "resolve_options no_options" 10 "[Some white1]" "Some black1" "Some black1"]
        open_window_black_white
  by (simp add: Let_def truthy_def)

section \<open>The first item\<close>

lemma screenshots_resolve_window:
  "\<exists>more. screenshots (resolve_window opts f st) = screenshots st @ more"
  by (simp add: resolve_window_def Let_def)

lemma screenshots_collect_stable [simp]:
  "screenshots (collect_stable opts f d st) = screenshots st"
  by (simp add: collect_stable_def Let_def)

lemma screenshots_loop_body:
  "\<exists>more. screenshots (loop_body opts captured st) = screenshots st @ more"
proof (cases captured)
  case None
  then show ?thesis by (simp add: loop_body_def)
next
  case (Some currentFrame)
  show ?thesis
  proof (cases "baselineFrame st")
    case None
    with Some show ?thesis by (simp add: loop_body_def)
  next
    case (Some baseline)
    have r: "\<exists>more. screenshots (resolve_window opts currentFrame s) = shots @ more"
      if "screenshots s = shots" for s shots
      using screenshots_resolve_window [of opts currentFrame s] that by simp
    from Some \<open>captured = Some currentFrame\<close> show ?thesis
      by (auto simp: loop_body_def Let_def intro!: r)
  qed
qed

lemma screenshots_iterate:
  "\<exists>more. screenshots (iterate opts d captures st) = screenshots st @ more"
proof (induction captures arbitrary: st)
  case Nil
  then show ?case by simp
next
  case (Cons c cs)
  show ?case
  proof (cases "currentTime st < d - 0.1")
    case True
    obtain m1 where m1: "screenshots (loop_body opts c st) = screenshots st @ m1"
      using screenshots_loop_body by blast
    obtain m2 where "screenshots (iterate opts d cs (loop_body opts c st))
                       = screenshots (loop_body opts c st) @ m2"
      using Cons.IH by blast
    with m1 True show ?thesis by simp
  next
    case False
    then show ?thesis by simp
  qed
qed

lemma screenshots_pending_change:
  "\<exists>more. screenshots (pending_change opts st) = screenshots st @ more"
  by (simp add: pending_change_def Let_def)

lemma screenshots_final_frame:
  "\<exists>more. screenshots (final_frame opts d captured st) = screenshots st @ more"
  by (simp add: final_frame_def Let_def split: option.splits)

lemma initial_state_first_item:
  "initial_state opts (Some f1) (Some f2) =
     \<lparr>baselineFrame = Some f2, frameNumber = 1,
      lastScreenshotTime = 0.1 + stabilityWindow opts,
      recentDifferences = [], changeDetectedAt = None, stableFrames = [],
      screenshots = [\<lparr>timestamp = 0.1 + stabilityWindow opts, shotFrameNumber = 0,
                      shotBlurScore = calculateBlurScore f2, shotFrame = f2\<rparr>],
      currentTime = 0.1 + stabilityWindow opts + sampleInterval opts\<rparr>"
  by (simp add: initial_state_def emit_def Let_def)

lemma processVideo_screenshots:
  assumes "processVideo video options = Some (Inr shots)"
  shows "\<exists>captures more.
           shots = screenshots (iterate (resolve_options options) (duration video) captures
                     (initial_state (resolve_options options)
                        (firstCapture video) (stableCapture video))) @ more"
proof -
  let ?opts = "resolve_options options"
  let ?init = "initial_state ?opts (firstCapture video) (stableCapture video)"
  from assms obtain st where
    loop: "sample_loop ?opts (duration video) (loopCaptures video) ?init = Some st" and
    shots: "shots = screenshots (final_frame ?opts (duration video) (finalCapture video)
                       (pending_change ?opts st))"
    by (auto simp: processVideo_def Let_def split: if_splits option.splits)
  from loop have st: "st = iterate ?opts (duration video) (loopCaptures video) ?init"
    by (rule sample_loop_iterate)
  obtain m1 where m1: "screenshots (pending_change ?opts st) = screenshots st @ m1"
    using screenshots_pending_change by blast
  obtain m2 where m2:
    "screenshots (final_frame ?opts (duration video) (finalCapture video) (pending_change ?opts st))
       = screenshots (pending_change ?opts st) @ m2"
    using screenshots_final_frame by blast
  from shots m1 m2 st show ?thesis by auto
qed

lemma blurry_video_run:
  "processVideo blurry_video no_options =
     Some (Inr [\<lparr>timestamp = 3 / 5, shotFrameNumber = 0, shotBlurScore = 0, shotFrame = black1\<rparr>])"
  by (simp add: engine_defs blurry_video_def blur_black1 diff_black1_self)

text \<open>
  Claim C9. When the first frame has been captured and the second frame (drawn
  \<^verbatim>\<open>stabilityWindow\<close> seconds after the initial sample at 0.1 s) has been captured too,
  that second frame is emitted as screenshot number 0 with timestamp
  \<^verbatim>\<open>0.1 + stabilityWindow\<close>, whatever its blur score, and it becomes the baseline. The
  screenshot stays first in the list through every iteration of the loop, and every
  result that \<^verbatim>\<open>processVideo\<close> returns for such a video starts with it: the run emits
  at least one screenshot even when the opening is uniformly blurry.
\<close>

theorem first_item_always_captured:
  assumes "firstCapture video = Some f1" and "stableCapture video = Some f2"
  shows "(let opts = resolve_options options;
              init = initial_state opts (firstCapture video) (stableCapture video);
              shot = \<lparr>timestamp = 0.1 + stabilityWindow opts, shotFrameNumber = 0,
                      shotBlurScore = calculateBlurScore f2, shotFrame = f2\<rparr>
          in screenshots init = [shot]
             \<and> baselineFrame init = Some f2
             \<and> lastScreenshotTime init = 0.1 + stabilityWindow opts
             \<and> (\<forall>captures.
                   take 1 (screenshots (iterate opts (duration video) captures init)) = [shot])
             \<and> (\<forall>shots. processVideo video options = Some (Inr shots) \<longrightarrow> take 1 shots = [shot]))"
proof -
  let ?opts = "resolve_options options"
  let ?init = "initial_state ?opts (firstCapture video) (stableCapture video)"
  let ?shot = "\<lparr>timestamp = 0.1 + stabilityWindow ?opts, shotFrameNumber = 0,
                 shotBlurScore = calculateBlurScore f2, shotFrame = f2\<rparr>"
  have init: "screenshots ?init = [?shot]" "baselineFrame ?init = Some f2"
    "lastScreenshotTime ?init = 0.1 + stabilityWindow ?opts"
    by (simp_all add: assms initial_state_first_item)
  have loop: "take 1 (screenshots (iterate ?opts (duration video) captures ?init)) = [?shot]"
    for captures
  proof -
    obtain more where
      "screenshots (iterate ?opts (duration video) captures ?init) = screenshots ?init @ more"
      using screenshots_iterate by blast
    with init(1) show ?thesis by simp
  qed
  have run: "take 1 shots = [?shot]" if "processVideo video options = Some (Inr shots)" for shots
  proof -
    from processVideo_screenshots [OF that] obtain captures more where
      "shots = screenshots (iterate ?opts (duration video) captures ?init) @ more"
      by blast
    moreover obtain more' where
      "screenshots (iterate ?opts (duration video) captures ?init) = screenshots ?init @ more'"
      using screenshots_iterate by blast
    ultimately show ?thesis using init(1) by simp
  qed
  from init loop run show ?thesis by (simp add: Let_def)
qed

theorem first_item_always_captured_witness:
  "firstCapture blurry_video = Some black1 \<and> stableCapture blurry_video = Some black1
   \<and> calculateBlurScore black1 < minBlurThreshold (resolve_options no_options)
   \<and> processVideo blurry_video no_options =
       Some (Inr [\<lparr>timestamp = 3 / 5, shotFrameNumber = 0, shotBlurScore = 0, shotFrame = black1\<rparr>])
   \<and> take 1 [\<lparr>timestamp = 3 / 5, shotFrameNumber = 0, shotBlurScore = 0, shotFrame = black1\<rparr>]
       = [\<lparr>timestamp = 0.1 + stabilityWindow (resolve_options no_options), shotFrameNumber = 0,
           shotBlurScore = calculateBlurScore black1, shotFrame = black1\<rparr>]"
proof -
  have caps: "firstCapture blurry_video = Some black1" "stableCapture blurry_video = Some black1"
    by (simp_all add: blurry_video_def)
  from first_item_always_captured [OF caps, of no_options] blurry_video_run
  have "take 1 [\<lparr>timestamp = 3 / 5, shotFrameNumber = 0, shotBlurScore = 0, shotFrame = black1\<rparr>]
       = [\<lparr>timestamp = 0.1 + stabilityWindow (resolve_options no_options), shotFrameNumber = 0,
           shotBlurScore = calculateBlurScore black1, shotFrame = black1\<rparr>]"
    by (simp add: Let_def)
  with caps blurry_video_run show ?thesis
    by (simp add: blur_black1 resolve_options_def no_options_def or_default_def)
qed

section \<open>Inputs on which the code departs from its description\<close>

subsection \<open>A stable, sharp frame inside an open change window\<close>

text \<open>
  Claim C1 says that while a change window is open every sampled frame that is stable
  and sharp enough is added to the candidate set. The code guards the accumulation with
  \<^verbatim>\<open>isStable && !changeDetectedAt\<close>, so it adds nothing while the window is open. The
  run below uses the default options and the baseline \<open>sharp43\<close>. The capture at 0.8 s
  (\<open>gray43\<close>) differs from the baseline by 201/1600, above \<^verbatim>\<open>changeThreshold\<close>, and opens
  the window. The capture at 1.0 s is the baseline itself: 0.2 s into the window of 0.5 s,
  with a difference below \<^verbatim>\<open>stabilityThreshold\<close> and a sharpness above
  \<^verbatim>\<open>minBlurThreshold\<close>. After it the window is still open and the candidate set is
  empty.
\<close>

theorem open_window_collects_nothing:
  "(let opts = resolve_options no_options;
        init = initial_state opts (Some sharp43) (Some sharp43);
        st1 = iterate opts 10 [Some gray43] init;
        st2 = iterate opts 10 [Some gray43, Some sharp43] init
    in changeDetectedAt st1 = Some (4 / 5) \<and> currentTime st1 = 1
       \<and> baselineFrame st1 = Some sharp43
       \<and> currentTime st1 - 4 / 5 < stabilityWindow opts
       \<and> calculateFrameDifference sharp43 sharp43 True < stabilityThreshold opts
       \<and> calculateBlurScore sharp43 \<ge> minBlurThreshold opts
       \<and> changeDetectedAt st2 = Some (4 / 5) \<and> stableFrames st2 = [])"
  by (simp add: engine_defs blur_sharp43 diff_sharp43_self diff_sharp43_gray43)

theorem open_window_collects_nothing_witness:
  "stableFrames (iterate (resolve_options no_options) 10 [Some gray43, Some sharp43]
     (initial_state (resolve_options no_options) (Some sharp43) (Some sharp43))) = []
   \<and> - 6 / 25 < stabilityThreshold (resolve_options no_options)
   \<and> minBlurThreshold (resolve_options no_options) \<le> 585225 / 4"
  using open_window_collects_nothing
  by (simp add: Let_def blur_sharp43 diff_sharp43_self)

subsection \<open>The range of the frame difference\<close>

text \<open>
  Claim C2 says that the frame difference of two frames of equal dimensions lies in the
  interval from 0 to 1. The three channel histograms share one array and each is
  normalised to sum 1, so the intersection of two histograms reaches 3 and
  \<^verbatim>\<open>1 - intersection\<close> reaches -2. For a black and a blue pixel, which agree in two
  channels, the code returns -189/1600.
\<close>

theorem calculateFrameDifference_black_blue:
  "calculateFrameDifference black1 blue1 True = - 189 / 1600"
  by (rule diff_black1_blue1)

theorem calculateFrameDifference_black_blue_witness:
  "width black1 = width blue1 \<and> height black1 = height blue1
   \<and> well_formed black1 \<and> well_formed blue1
   \<and> calculateFrameDifference black1 blue1 True < 0"
  using calculateFrameDifference_black_blue well_formed_examples
  by (simp add: black1_def blue1_def)

subsection \<open>The difference of a frame with itself\<close>

lemma pixel_body_self: "fst (pixel_body a a bx by py px acc) = fst acc"
  by (cases acc) (simp add: pixel_body_def Let_def)

lemma fold_pixel_body_self: "fst (fold (pixel_body a a bx by py) xs acc) = fst acc"
  by (induction xs arbitrary: acc) (simp_all add: pixel_body_self)

lemma fold_rows_self:
  "fst (fold (\<lambda>py acc. fold (pixel_body a a bx by py) (xs py) acc) ys acc) = fst acc"
  by (induction ys arbitrary: acc) (simp_all add: fold_pixel_body_self)

lemma block_pixels_self: "fst (block_pixels a a bx by) = 0"
  unfolding block_pixels_def by (simp add: fold_rows_self)

lemma block_body_self: "fst (block_body a a by bx acc) = fst acc"
  using block_pixels_self [of a bx "by"]
  by (cases acc; cases "block_pixels a a bx by") (simp add: block_body_def)

lemma fold_block_body_self: "fst (fold (block_body a a by) xs acc) = fst acc"
  by (induction xs arbitrary: acc) (simp_all add: block_body_self)

lemma fold_blocks_self:
  "fst (fold (\<lambda>by acc. fold (block_body a a by) xs acc) ys acc) = fst acc"
  by (induction ys arbitrary: acc) (simp_all add: fold_block_body_self)

lemma calculateStructuralDifference_self: "calculateStructuralDifference a a = 0"
  by (simp add: calculateStructuralDifference_def Let_def fold_blocks_self)

lemma sum_list_incr: "k < length h \<Longrightarrow> sum_list (incr h k) = sum_list h + 1"
  unfolding incr_def
  by (induction h arbitrary: k) (auto split: nat.splits)

lemma bin_of_less: "bin_of v < bins"
  by (simp add: bin_of_def bins_def)

lemma sum_list_hist_body:
  assumes "length (fst hs) = bins * 3"
  shows "sum_list (fst (hist_body d1 d2 i hs)) = sum_list (fst hs) + 3"
proof -
  obtain h1 h2 where hs: "hs = (h1, h2)" by (cases hs)
  have b: "bin_of v < bins" for v by (rule bin_of_less)
  have len: "length h1 = bins * 3" using assms hs by simp
  have i1: "bin_of v < length h1" for v using b [of v] len by simp
  have i2: "bins + bin_of v < length h1" for v using b [of v] len by simp
  have i3: "bins * 2 + bin_of v < length h1" for v using b [of v] len by simp
  show ?thesis
    by (simp add: hs hist_body_def Let_def sum_list_incr i1 i2 i3)
qed

lemma hist_loop_count:
  assumes "length (fst hs) = bins * 3"
  shows "\<exists>n::nat. sum_list (fst (hist_loop d1 d2 i hs)) = sum_list (fst hs) + 3 * real n
           \<and> real (length d1) - real i \<le> real n * real (4 * sampleRate_of (length d1))
           \<and> (i < length d1 \<longrightarrow> 1 \<le> n)"
  using assms
proof (induction d1 d2 i hs rule: hist_loop.induct)
  case (1 data1 data2 i hs)
  let ?step = "4 * sampleRate_of (length data1)"
  show ?case
  proof (cases "i < length data1")
    case True
    have len': "length (fst (hist_body data1 data2 i hs)) = bins * 3"
      using "1.prems" by (simp add: length_hist_body)
    from "1.IH" [OF True len'] obtain n where
      s: "sum_list (fst (hist_loop data1 data2 (i + ?step) (hist_body data1 data2 i hs)))
            = sum_list (fst (hist_body data1 data2 i hs)) + 3 * real n" and
      c: "real (length data1) - real (i + ?step) \<le> real n * real ?step"
      by blast
    have unfold: "hist_loop data1 data2 i hs
                    = hist_loop data1 data2 (i + ?step) (hist_body data1 data2 i hs)"
      using True by (subst hist_loop.simps) simp
    have "sum_list (fst (hist_loop data1 data2 i hs))
            = sum_list (fst (hist_body data1 data2 i hs)) + 3 * real n"
      by (simp only: unfold s)
    also have "\<dots> = sum_list (fst hs) + 3 + 3 * real n"
      by (simp only: sum_list_hist_body [OF "1.prems"])
    finally have "sum_list (fst (hist_loop data1 data2 i hs)) = sum_list (fst hs) + 3 * real (Suc n)"
      by simp
    moreover have "real (length data1) - real i \<le> real (Suc n) * real ?step"
      using c by (simp add: algebra_simps)
    ultimately show ?thesis using True by (intro exI [of _ "Suc n"]) simp
  next
    case False
    have "hist_loop data1 data2 i hs = hs"
      using False by (subst hist_loop.simps) simp
    with False show ?thesis by (intro exI [of _ 0]) simp
  qed
qed

lemma hist_loop_self:
  "fst (hist_loop d d i (h, h)) = snd (hist_loop d d i (h, h))"
proof -
  have "fst (hist_loop d d i (prod.swap (h, h))) = fst (prod.swap (hist_loop d d i (h, h)))"
    by (simp only: hist_loop_swap [OF refl])
  then show ?thesis by simp
qed

lemma compare_body_self: "compare_body h h i (x, c) = (x + h ! i, c)"
  by (simp add: compare_body_def Let_def)

lemma fold_compare_self:
  "n \<le> length h \<Longrightarrow> fold (compare_body h h) [0 ..< n] (x, c) = (x + sum_list (take n h), c)"
  by (induction n) (simp_all add: compare_body_self take_Suc_conv_app_nth)

lemma sum_list_scaled: "sum_list (map (\<lambda>c. c / t) h) = sum_list h / (t::real)"
  by (induction h) (simp_all add: add_divide_distrib)

lemma calculateHistogramDifference_self_eq:
  "calculateHistogramDifference a a =
     (let counts = fst (hist_loop (data a) (data a) 0
                          (replicate (bins * 3) 0, replicate (bins * 3) 0));
          total = nat \<lfloor>real (length (data a)) / real (4 * sampleRate_of (length (data a)))\<rfloor>
      in (1 - sum_list (if total > 0 then map (\<lambda>c. c / real total) counts else counts)) * 0.4)"
proof -
  have same: "snd (hist_loop (data a) (data a) 0 (replicate (bins * 3) 0, replicate (bins * 3) 0))
                = fst (hist_loop (data a) (data a) 0 (replicate (bins * 3) 0, replicate (bins * 3) 0))"
    using hist_loop_self [of "data a" 0 "replicate (bins * 3) 0"] by simp
  show ?thesis
    unfolding calculateHistogramDifference_def Let_def same
    by (simp add: fold_compare_self)
qed

lemma calculateHistogramDifference_self:
  assumes "data a \<noteq> []"
  shows "calculateHistogramDifference a a \<le> - 4 / 5"
proof -
  let ?d = "data a"
  let ?z = "replicate (bins * 3) (0::real)"
  let ?counts = "hist_loop ?d ?d 0 (?z, ?z)"
  let ?step = "4 * sampleRate_of (length ?d)"
  let ?total = "nat \<lfloor>real (length ?d) / real ?step\<rfloor>"
  let ?h = "if ?total > 0 then map (\<lambda>c. c / real ?total) (fst ?counts) else fst ?counts"
  from hist_loop_count [of "(?z, ?z)" ?d ?d 0] assms obtain n :: nat where
    s: "sum_list (fst ?counts) = 3 * real n" and
    c: "real (length ?d) \<le> real n * real ?step" and
    n: "1 \<le> n"
    by (auto simp: sum_list_replicate)
  have step: "0 < real ?step" by (simp add: sampleRate_of_def)
  have "real (length ?d) / real ?step \<le> real n"
    using c step by (simp add: pos_divide_le_eq)
  then have "\<lfloor>real (length ?d) / real ?step\<rfloor> \<le> int n"
    by (simp add: floor_le_iff)
  then have total: "?total \<le> n" by simp
  have sum: "3 \<le> sum_list ?h"
  proof (cases "?total > 0")
    case True
    then have "sum_list ?h = 3 * real n / real ?total"
      by (simp add: sum_list_scaled s)
    moreover have "1 \<le> real n / real ?total"
      using True total by (simp add: pos_le_divide_eq)
    ultimately show ?thesis by simp
  next
    case False
    then have "sum_list ?h = 3 * real n" by (simp add: s)
    with n show ?thesis by simp
  qed
  have "calculateHistogramDifference a a = (1 - sum_list ?h) * 0.4"
    by (simp add: calculateHistogramDifference_self_eq Let_def)
  with sum show ?thesis by simp
qed

lemma calculateHistogramDifference_self_empty:
  assumes "data a = []"
  shows "calculateHistogramDifference a a = 2 / 5"
proof -
  have "hist_loop [] [] 0 hs = hs" for hs
    by (subst hist_loop.simps) simp
  with assms show ?thesis
    by (simp add: calculateHistogramDifference_self_eq Let_def sum_list_replicate)
qed

lemma calculateFrameDifference_self_nonempty:
  assumes "data a \<noteq> []"
  shows "calculateFrameDifference a a True \<le> - 6 / 25"
  using calculateHistogramDifference_self [OF assms]
  by (simp add: calculateFrameDifference_def calculateStructuralDifference_self)

lemma calculateFrameDifference_self_empty:
  assumes "data a = []"
  shows "calculateFrameDifference a a True = 3 / 25"
  using calculateHistogramDifference_self_empty [OF assms]
  by (simp add: calculateFrameDifference_def calculateStructuralDifference_self)

text \<open>
  Claim C3 says that the frame difference of a frame with itself is exactly 0. It is
  never 0: the structural component of a frame with itself is 0, but the histogram
  intersection of a frame with itself is the sum of all three channel histograms, at
  least 3, so the histogram component is at most \<^verbatim>\<open>0.4 * (1 - 3)\<close> and the result at
  most -6/25 for every frame that has a pixel; for a frame with no data it is 3/25. For
  the single black pixel the code returns exactly -6/25.
\<close>

theorem calculateFrameDifference_self_never_zero:
  "(if data a = [] then calculateFrameDifference a a True = 3 / 25
    else calculateFrameDifference a a True \<le> - 6 / 25)"
  using calculateFrameDifference_self_empty [of a] calculateFrameDifference_self_nonempty [of a]
  by (cases "data a = []") simp_all

theorem calculateFrameDifference_self_never_zero_witness:
  "well_formed black1 \<and> data black1 \<noteq> []
   \<and> calculateFrameDifference black1 black1 True = - 6 / 25
   \<and> calculateFrameDifference black1 black1 True \<noteq> 0"
  using calculateFrameDifference_self_never_zero [of black1] diff_black1_self well_formed_examples
  by (simp add: black1_def)

subsection \<open>Partial blocks of the structural difference\<close>

lemma calculateStructuralDifference_small:
  "width frame1 < blockSize \<or> height frame1 < blockSize
     \<Longrightarrow> calculateStructuralDifference frame1 frame2 = 0"
proof -
  have idle: "fold (\<lambda>by. id) ys acc = acc" for ys :: "nat list" and acc :: "real \<times> nat"
    by (induction ys) simp_all
  assume "width frame1 < blockSize \<or> height frame1 < blockSize"
  then show ?thesis
    by (auto simp: calculateStructuralDifference_def Let_def idle)
qed

text \<open>
  Claim C4 says that partial blocks at the right and bottom borders are compared over
  the pixels they have. The code counts \<^verbatim>\<open>Math.floor(width / 32)\<close> by
  \<^verbatim>\<open>Math.floor(height / 32)\<close> blocks, so a partial block is never visited, although the
  inner loops are guarded for one. A black and a white pixel form one partial block, whose
  comparison over its single pixel finds a difference of 1; the structural difference the
  code returns is 0, as it is for every frame narrower or lower than one block
  (\<open>calculateStructuralDifference_small\<close>).
\<close>

theorem calculateStructuralDifference_black_white:
  "calculateStructuralDifference black1 white1 = 0
   \<and> block_pixels black1 white1 0 0 = (1, 1)"
  by code_simp

subsection \<open>The timestamp of the final frame\<close>

text \<open>
  Claim C5 says that consecutive screenshots are at least \<^verbatim>\<open>minScreenshotInterval\<close> apart,
  the final frame included. The final frame is admitted when \<^verbatim>\<open>duration\<close> is at least
  that far from the last timestamp, and is then stamped \<^verbatim>\<open>duration - 0.1\<close>. With the
  default options (an interval of 1 s) a still video of 1.65 s yields the first item at
  0.6 s and the final frame at 1.55 s, which are 0.95 s apart.
\<close>

theorem final_frame_too_close:
  "processVideo still_video no_options =
     Some (Inr [\<lparr>timestamp = 3 / 5, shotFrameNumber = 0,
                 shotBlurScore = 585225 / 4, shotFrame = sharp43\<rparr>,
                \<lparr>timestamp = 31 / 20, shotFrameNumber = 6,
                 shotBlurScore = 585225 / 4, shotFrame = sharp43\<rparr>])"
  by (simp add: engine_defs still_video_def blur_sharp43 diff_sharp43_self)

theorem final_frame_too_close_witness:
  "map_option (map_sum id (map timestamp)) (processVideo still_video no_options)
     = Some (Inr [3 / 5, 31 / 20])
   \<and> (31 / 20 :: real) - 3 / 5 < minScreenshotInterval (resolve_options no_options)"
  using final_frame_too_close
  by (simp add: resolve_options_def no_options_def or_default_def)

end
